theory Spec2Isabelle
  imports Main "HOL-Library.Sublist"
begin

section \<open>Python values, errors and the environment of the parsers\<close>

text \<open>
  The parsers of \<^verbatim>\<open>taxadb/parser.py\<close> read files, query the database through the
  \<^verbatim>\<open>Taxa\<close> and \<^verbatim>\<open>Accession\<close> tables and stop the process through
  \<^verbatim>\<open>taxadb.util.fatal\<close>. Each of these is explicit in the model:
  the file system and the store are arguments, and a call that raises returns the
  failure as a value.

  A Python \<^verbatim>\<open>str\<close> is modelled by its UTF-8 bytes (\<^typ>\<open>string\<close>). Splitting at, and
  stripping of, the ASCII characters tab, newline and \<^verbatim>\<open>|\<close> and comparing strings for
  equality give the same result on the bytes as on the code points.
\<close>

datatype error =
    SystemExit int
  | IndexError
  | UnicodeDecodeError
  | TypeError
  | FileNotFoundError
  | IsADirectoryError

text \<open>
  A failure is the exception that leaves the function together with the lines that
  \<^verbatim>\<open>fatal\<close> printed on standard error before raising it. Output on standard output
  (\<^verbatim>\<open>print\<close>, \<^verbatim>\<open>verbose\<close>) never changes a result and is left out.
\<close>

record failure =
  stderr :: "string list"
  exn :: error

definition raise :: "error \<Rightarrow> failure" where
  "raise e = \<lparr>stderr = [], exn = e\<rparr>"

text \<open>
  \<^verbatim>\<open>fatal(msg)\<close>: prints \<^verbatim>\<open>[FATAL] msg\<close> (or a fixed text when \<^verbatim>\<open>msg\<close> is
  \<^verbatim>\<open>None\<close>) on standard error, then \<^verbatim>\<open>sys.exit(1)\<close>.
\<close>

definition fatal :: "string option \<Rightarrow> failure" where
  "fatal msg =
     (case msg of
        Some m \<Rightarrow> \<lparr>stderr = [''[FATAL] '' @ m], exn = SystemExit 1\<rparr>
      | None \<Rightarrow> \<lparr>stderr = [''[FATAL] An error occured''], exn = SystemExit 1\<rparr>)"

definition raised_exn :: "failure + 'a \<Rightarrow> error option" where
  "raised_exn r = (case r of Inl f \<Rightarrow> Some (exn f) | Inr _ \<Rightarrow> None)"

text \<open>
  The file system maps a path to what is found there. A regular file is given by the
  lines that iterating over the opened file produces (for the gzip file of
  \<^verbatim>\<open>accession2taxid\<close>: the lines of the decompressed bytes), each with its line
  terminator when it has one.
\<close>

datatype fnode = RegularFile "string list" | Directory | Special

type_synonym filesystem = "string \<rightharpoonup> fnode"

definition path_exists :: "filesystem \<Rightarrow> string \<Rightarrow> bool" where
  "path_exists fs p = (fs p \<noteq> None)"

definition path_isfile :: "filesystem \<Rightarrow> string \<Rightarrow> bool" where
  "path_isfile fs p = (case fs p of Some (RegularFile _) \<Rightarrow> True | _ \<Rightarrow> False)"

definition open_file :: "filesystem \<Rightarrow> string option \<Rightarrow> failure + string list" where
  "open_file fs path =
     (case path of
        None \<Rightarrow> Inl (raise TypeError)
      | Some p \<Rightarrow>
          (case fs p of
             None \<Rightarrow> Inl (raise FileNotFoundError)
           | Some (RegularFile ls) \<Rightarrow> Inr ls
           | Some _ \<Rightarrow> Inl (raise IsADirectoryError)))"

text \<open>
  The store, as the parsers see it (\<^verbatim>\<open>taxadb.schema\<close> is not part of the sources):
  the \<^verbatim>\<open>ncbi_taxid\<close> column of \<^verbatim>\<open>Taxa\<close>, each value as \<^verbatim>\<open>str\<close> renders it, in
  the order of the select, and whether \<^verbatim>\<open>Accession.get(Accession.accession == a)\<close>
  finds a row.
\<close>

record store =
  taxa_ncbi_taxid :: "string list"
  has_accession :: "string \<Rightarrow> bool"

type_synonym pydict = "string \<rightharpoonup> string"

text \<open>\<^verbatim>\<open>{str(x['ncbi_taxid']): True for x in Taxa.select(Taxa.ncbi_taxid).dicts()}\<close>\<close>

definition known_ids :: "store \<Rightarrow> (string \<rightharpoonup> bool)" where
  "known_ids st = map_of (map (\<lambda>x. (x, True)) (taxa_ncbi_taxid st))"

subsection \<open>String and list operations of Python\<close>

abbreviation TAB :: char where "TAB \<equiv> CHR 0x09"
abbreviation NL :: char where "NL \<equiv> CHR 0x0A"

text \<open>\<^verbatim>\<open>s.split(sep)\<close> for a separator of one character: one more field than separators.\<close>

fun split :: "char \<Rightarrow> string \<Rightarrow> string list" where
  "split sep [] = [[]]"
| "split sep (c # cs) =
     (if c = sep then [] # split sep cs
      else (case split sep cs of [] \<Rightarrow> [[c]] | w # ws \<Rightarrow> (c # w) # ws))"

text \<open>\<^verbatim>\<open>s.rstrip(c)\<close> and \<^verbatim>\<open>s.strip(c)\<close> for one character.\<close>

definition rstrip :: "char \<Rightarrow> string \<Rightarrow> string" where
  "rstrip c s = rev (dropWhile (\<lambda>x. x = c) (rev s))"

definition strip :: "char \<Rightarrow> string \<Rightarrow> string" where
  "strip c s = rstrip c (dropWhile (\<lambda>x. x = c) s)"

text \<open>\<^verbatim>\<open>xs[i]\<close> for \<^verbatim>\<open>i >= 0\<close>: raises \<^verbatim>\<open>IndexError\<close> out of range.\<close>

definition getitem :: "'a list \<Rightarrow> nat \<Rightarrow> failure + 'a" where
  "getitem xs i = (if i < length xs then Inr (xs ! i) else Inl (raise IndexError))"

text \<open>
  \<^verbatim>\<open>line.decode()\<close>: strict UTF-8. The decoded text is represented by the same
  bytes; bytes that are not well-formed UTF-8 raise \<^verbatim>\<open>UnicodeDecodeError\<close>.
\<close>

definition is_cont :: "char \<Rightarrow> bool" where
  "is_cont c = (128 \<le> (of_char c :: nat) \<and> (of_char c :: nat) < 192)"

definition in_range :: "nat \<Rightarrow> nat \<Rightarrow> char \<Rightarrow> bool" where
  "in_range lo hi c = (lo \<le> (of_char c :: nat) \<and> (of_char c :: nat) \<le> hi)"

fun utf8_valid :: "string \<Rightarrow> bool" where
  "utf8_valid [] = True"
| "utf8_valid (c # cs) =
     (let b = (of_char c :: nat) in
      if b < 128 then utf8_valid cs
      else if 194 \<le> b \<and> b \<le> 223 then
        (case cs of c1 # r \<Rightarrow> is_cont c1 \<and> utf8_valid r | _ \<Rightarrow> False)
      else if 224 \<le> b \<and> b \<le> 239 then
        (case cs of
           c1 # c2 # r \<Rightarrow>
             (if b = 224 then in_range 160 191 c1
              else if b = 237 then in_range 128 159 c1
              else is_cont c1) \<and> is_cont c2 \<and> utf8_valid r
         | _ \<Rightarrow> False)
      else if 240 \<le> b \<and> b \<le> 244 then
        (case cs of
           c1 # c2 # c3 # r \<Rightarrow>
             (if b = 240 then in_range 144 191 c1
              else if b = 244 then in_range 128 143 c1
              else is_cont c1) \<and> is_cont c2 \<and> is_cont c3 \<and> utf8_valid r
         | _ \<Rightarrow> False)
      else False)"

definition decode :: "string \<Rightarrow> failure + string" where
  "decode bs = (if utf8_valid bs then Inr bs else Inl (raise UnicodeDecodeError))"

section \<open>TaxaParser\<close>

text \<open>
  \<^verbatim>\<open>check_file(element)\<close>: three checks in the order of the source, each ending in
  \<^verbatim>\<open>fatal\<close>; \<^verbatim>\<open>True\<close> otherwise.
\<close>

definition check_file :: "filesystem \<Rightarrow> string option \<Rightarrow> failure + bool" where
  "check_file fs element =
     (case element of
        None \<Rightarrow> Inl (fatal (Some ''Please provide an input file to check''))
      | Some p \<Rightarrow>
          if \<not> path_exists fs p then Inl (fatal (Some (''File '' @ p @ '' does not exist'')))
          else if \<not> path_isfile fs p then Inl (fatal (Some (p @ '' is not a file'')))
          else Inr True)"

section \<open>TaxaDumpParser\<close>

record TaxaDumpParser =
  nodes_file :: "string option"
  names_file :: "string option"

text \<open>The loop over the lines of \<^verbatim>\<open>nodes.dmp\<close>; \<^verbatim>\<open>nodes_data\<close> is the list built so far.\<close>

fun parse_nodes :: "(string \<rightharpoonup> bool) \<Rightarrow> string list \<Rightarrow> pydict list \<Rightarrow> failure + pydict list" where
  "parse_nodes ncbi_ids [] nodes_data = Inr nodes_data"
| "parse_nodes ncbi_ids (line # f) nodes_data =
     (let line_list = split CHR ''|'' line in
      (case getitem line_list 0 of Inl e \<Rightarrow> Inl e | Inr c0 \<Rightarrow>
      (let ncbi_id = strip TAB c0 in
       if ncbi_id \<in> dom ncbi_ids then parse_nodes ncbi_ids f nodes_data
       else
        (case getitem line_list 1 of Inl e \<Rightarrow> Inl e | Inr c1 \<Rightarrow>
        (case getitem line_list 2 of Inl e \<Rightarrow> Inl e | Inr c2 \<Rightarrow>
        (let data_dict = [''ncbi_taxid'' \<mapsto> ncbi_id,
                          ''parent_taxid'' \<mapsto> strip TAB c1,
                          ''tax_name'' \<mapsto> '''',
                          ''lineage_level'' \<mapsto> strip TAB c2]
         in parse_nodes ncbi_ids f (nodes_data @ [data_dict])))))))"

text \<open>The loop over the lines of \<^verbatim>\<open>names.dmp\<close>: only the lines with \<^verbatim>\<open>scientific name\<close>.\<close>

fun parse_names :: "(string \<rightharpoonup> bool) \<Rightarrow> string list \<Rightarrow> pydict list \<Rightarrow> failure + pydict list" where
  "parse_names ncbi_ids [] names_data = Inr names_data"
| "parse_names ncbi_ids (line # f) names_data =
     (if sublist ''scientific name'' line then
        (let line_list = split CHR ''|'' line in
         (case getitem line_list 0 of Inl e \<Rightarrow> Inl e | Inr c0 \<Rightarrow>
         (let ncbi_id = strip TAB c0 in
          if ncbi_id \<in> dom ncbi_ids then parse_names ncbi_ids f names_data
          else
           (case getitem line_list 0 of Inl e \<Rightarrow> Inl e | Inr c0' \<Rightarrow>
           (case getitem line_list 1 of Inl e \<Rightarrow> Inl e | Inr c1 \<Rightarrow>
           (let data_dict = [''ncbi_taxid'' \<mapsto> strip TAB c0',
                             ''tax_name'' \<mapsto> strip TAB c1]
            in parse_names ncbi_ids f (names_data @ [data_dict])))))))
      else parse_names ncbi_ids f names_data)"

text \<open>
  The merge loop: \<^verbatim>\<open>for nodes, names in zip(nodes_data, names_data)\<close> appends
  \<^verbatim>\<open>{**nodes, **names}\<close>, in which the entries of \<^verbatim>\<open>names\<close> replace those of
  \<^verbatim>\<open>nodes\<close> with the same key.
\<close>

definition merge :: "pydict list \<Rightarrow> pydict list \<Rightarrow> pydict list" where
  "merge nodes_data names_data = map (\<lambda>(nodes, names). nodes ++ names) (zip nodes_data names_data)"

definition taxdump ::
  "TaxaDumpParser \<Rightarrow> store \<Rightarrow> filesystem \<Rightarrow> string option \<Rightarrow> string option
     \<Rightarrow> failure + pydict list" where
  "taxdump self st fs nodes_arg names_arg =
     (let nodes_path = (if nodes_arg = None then nodes_file self else nodes_arg);
          names_path = (if names_arg = None then names_file self else names_arg)
      in
      (case check_file fs names_path of Inl e \<Rightarrow> Inl e | Inr _ \<Rightarrow>
      (case check_file fs nodes_path of Inl e \<Rightarrow> Inl e | Inr _ \<Rightarrow>
      (let ncbi_ids = known_ids st in
      (case open_file fs nodes_path of Inl e \<Rightarrow> Inl e | Inr f \<Rightarrow>
      (case parse_nodes ncbi_ids f [] of Inl e \<Rightarrow> Inl e | Inr nodes_data \<Rightarrow>
      (case open_file fs names_path of Inl e \<Rightarrow> Inl e | Inr g \<Rightarrow>
      (case parse_names ncbi_ids g [] of Inl e \<Rightarrow> Inl e | Inr names_data \<Rightarrow>
       Inr (merge nodes_data names_data)))))))))"

text \<open>
  The setters return their result together with the parser, which is changed only
  when the assignment is reached.
\<close>

definition set_nodes_file ::
  "TaxaDumpParser \<Rightarrow> filesystem \<Rightarrow> string option \<Rightarrow> (failure + bool) \<times> TaxaDumpParser" where
  "set_nodes_file self fs nodes_arg =
     (if nodes_arg = None then (Inl (fatal (Some ''Please provide an accession file to set'')), self)
      else (case check_file fs nodes_arg of
              Inl e \<Rightarrow> (Inl e, self)
            | Inr _ \<Rightarrow> (Inr True, self\<lparr>nodes_file := nodes_arg\<rparr>)))"

definition set_names_file ::
  "TaxaDumpParser \<Rightarrow> filesystem \<Rightarrow> string option \<Rightarrow> (failure + bool) \<times> TaxaDumpParser" where
  "set_names_file self fs names_arg =
     (if names_arg = None then (Inl (fatal (Some ''Please provide an accession file to set'')), self)
      else (case check_file fs names_arg of
              Inl e \<Rightarrow> (Inl e, self)
            | Inr _ \<Rightarrow> (Inr True, self\<lparr>names_file := names_arg\<rparr>)))"

section \<open>Accession2TaxidParser\<close>

record Accession2TaxidParser =
  acc_file :: "string option"
  chunk :: int
  fast :: bool

text \<open>
  \<^verbatim>\<open>__init__(self, acc_file=None, chunk=500, fast=False)\<close>: an argument of a call is
  either left out or passed.
\<close>

datatype 'a arg = Omitted | Passed 'a

definition init_Accession2TaxidParser ::
  "string option arg \<Rightarrow> int arg \<Rightarrow> bool arg \<Rightarrow> Accession2TaxidParser" where
  "init_Accession2TaxidParser acc_arg chunk_arg fast_arg =
     \<lparr>acc_file = (case acc_arg of Omitted \<Rightarrow> None | Passed v \<Rightarrow> v),
      chunk = (case chunk_arg of Omitted \<Rightarrow> 500 | Passed v \<Rightarrow> v),
      fast = (case fast_arg of Omitted \<Rightarrow> False | Passed v \<Rightarrow> v)\<rparr>"

text \<open>
  The local variables of the generator \<^verbatim>\<open>accession2taxid\<close> that change in its loop,
  and the batches it has yielded so far, oldest first.
\<close>

record gen_state =
  entries :: "pydict list"
  counter :: int
  accessions :: "string \<rightharpoonup> bool"
  yielded :: "pydict list list"

definition init_state :: gen_state where
  "init_state = \<lparr>entries = [], counter = 0, accessions = Map.empty, yielded = []\<rparr>"

text \<open>
  One pass through the body of \<^verbatim>\<open>for line in f\<close>. A \<^verbatim>\<open>continue\<close> leaves the state
  as it is; the test \<^verbatim>\<open>counter == chunk\<close> is reached only after an append.
\<close>

definition loop_body ::
  "bool \<Rightarrow> store \<Rightarrow> (string \<rightharpoonup> bool) \<Rightarrow> int \<Rightarrow> gen_state \<Rightarrow> string \<Rightarrow> failure + gen_state" where
  "loop_body fast_mode st taxids chunk_size s line =
     (case decode line of Inl e \<Rightarrow> Inl e | Inr text \<Rightarrow>
     (let line_list = split TAB (rstrip NL text) in
     (case getitem line_list 2 of Inl e \<Rightarrow> Inl e | Inr c2 \<Rightarrow>
      if c2 \<notin> dom taxids then Inr s
      else
       (case getitem line_list 0 of Inl e \<Rightarrow> Inl e | Inr c0 \<Rightarrow>
        if \<not> fast_mode \<and> c0 \<in> dom (accessions s) then Inr s
        else
         (let s1 = (if \<not> fast_mode \<and> \<not> has_accession st c0
                    then s\<lparr>accessions := (accessions s)(c0 \<mapsto> True)\<rparr> else s);
              data_dict = [''accession'' \<mapsto> c0, ''taxid'' \<mapsto> c2];
              s2 = s1\<lparr>entries := entries s1 @ [data_dict], counter := counter s1 + 1\<rparr>
          in if counter s2 = chunk_size
             then Inr (s2\<lparr>yielded := yielded s2 @ [entries s2], entries := [], counter := 0\<rparr>)
             else Inr s2)))))"

text \<open>The loop: it ends at the end of the file, or with the first failure of its body.\<close>

fun for_line_in ::
  "bool \<Rightarrow> store \<Rightarrow> (string \<rightharpoonup> bool) \<Rightarrow> int \<Rightarrow> gen_state \<Rightarrow> string list
     \<Rightarrow> gen_state \<times> failure option" where
  "for_line_in fast_mode st taxids chunk_size s [] = (s, None)"
| "for_line_in fast_mode st taxids chunk_size s (line # f) =
     (case loop_body fast_mode st taxids chunk_size s line of
        Inl e \<Rightarrow> (s, Some e)
      | Inr s' \<Rightarrow> for_line_in fast_mode st taxids chunk_size s' f)"

text \<open>
  What the consumer of the generator sees: the batches yielded, in order, and the
  failure that ended the generator, if any. After the loop a non-empty
  \<^verbatim>\<open>entries\<close> is yielded; a failure in the loop loses it.
\<close>

definition run_lines ::
  "bool \<Rightarrow> store \<Rightarrow> (string \<rightharpoonup> bool) \<Rightarrow> int \<Rightarrow> string list
     \<Rightarrow> pydict list list \<times> failure option" where
  "run_lines fast_mode st taxids chunk_size f =
     (case for_line_in fast_mode st taxids chunk_size init_state f of
        (s, Some e) \<Rightarrow> (yielded s, Some e)
      | (s, None) \<Rightarrow>
          (if length (entries s) \<noteq> 0 then yielded s @ [entries s] else yielded s, None))"

text \<open>
  \<^verbatim>\<open>accession2taxid(self, acc2taxid=None, chunk=500)\<close>. The value of \<^verbatim>\<open>chunk\<close> is an
  integer or \<^verbatim>\<open>None\<close>; \<^verbatim>\<open>not chunk\<close> holds for \<^verbatim>\<open>None\<close> and for \<^verbatim>\<open>0\<close>.
  \<^verbatim>\<open>f.readline()\<close> takes the first line off the file, if there is one.
\<close>

definition effective_chunk :: "Accession2TaxidParser \<Rightarrow> int option arg \<Rightarrow> int" where
  "effective_chunk self chunk_arg =
     (let chunk_val = (case chunk_arg of Omitted \<Rightarrow> Some 500 | Passed v \<Rightarrow> v) in
      case chunk_val of
        None \<Rightarrow> chunk self
      | Some n \<Rightarrow> if n = 0 then chunk self else n)"

definition accession2taxid ::
  "Accession2TaxidParser \<Rightarrow> store \<Rightarrow> filesystem \<Rightarrow> string option \<Rightarrow> int option arg
     \<Rightarrow> pydict list list \<times> failure option" where
  "accession2taxid self st fs acc2taxid_arg chunk_arg =
     (let taxids = known_ids st;
          acc2taxid = (if acc2taxid_arg = None then acc_file self else acc2taxid_arg)
      in
      (case check_file fs acc2taxid of Inl e \<Rightarrow> ([], Some e) | Inr _ \<Rightarrow>
      (let chunk_size = effective_chunk self chunk_arg in
      (case open_file fs acc2taxid of Inl e \<Rightarrow> ([], Some e) | Inr f \<Rightarrow>
       run_lines (fast self) st taxids chunk_size (drop 1 f)))))"

definition set_accession_file ::
  "Accession2TaxidParser \<Rightarrow> filesystem \<Rightarrow> string option
     \<Rightarrow> (failure + bool) \<times> Accession2TaxidParser" where
  "set_accession_file self fs acc_arg =
     (if acc_arg = None then (Inl (fatal (Some ''Please provide an accession file to set'')), self)
      else (case check_file fs acc_arg of
              Inl e \<Rightarrow> (Inl e, self)
            | Inr _ \<Rightarrow> (Inr True, self\<lparr>acc_file := acc_arg\<rparr>)))"

section \<open>Notions used to state the properties\<close>

text \<open>A path that passes \<^const>\<open>check_file\<close>: it is set, it exists and it is a regular file.\<close>

definition valid_path :: "filesystem \<Rightarrow> string option \<Rightarrow> bool" where
  "valid_path fs element =
     (case element of None \<Rightarrow> False | Some p \<Rightarrow> path_exists fs p \<and> path_isfile fs p)"

text \<open>The paths a call works on: the argument, or the stored path when the argument is \<^verbatim>\<open>None\<close>.\<close>

definition nodes_path :: "TaxaDumpParser \<Rightarrow> string option \<Rightarrow> string option" where
  "nodes_path self nodes_arg = (if nodes_arg = None then nodes_file self else nodes_arg)"

definition names_path :: "TaxaDumpParser \<Rightarrow> string option \<Rightarrow> string option" where
  "names_path self names_arg = (if names_arg = None then names_file self else names_arg)"

definition acc_path :: "Accession2TaxidParser \<Rightarrow> string option \<Rightarrow> string option" where
  "acc_path self acc2taxid_arg = (if acc2taxid_arg = None then acc_file self else acc2taxid_arg)"

text \<open>The lines of the accession file after its first line (none when it cannot be opened).\<close>

definition input_rows :: "filesystem \<Rightarrow> string option \<Rightarrow> string list" where
  "input_rows fs path = (case open_file fs path of Inl _ \<Rightarrow> [] | Inr f \<Rightarrow> drop 1 f)"

text \<open>
  The row of a line of the accession file: its accession (column 0) and its taxonomic
  id (column 2), when the line decodes and has both columns.
\<close>

definition row_of :: "string \<Rightarrow> (string \<times> string) option" where
  "row_of line =
     (if utf8_valid line
      then (let line_list = split TAB (rstrip NL line)
            in if 2 < length line_list then Some (line_list ! 0, line_list ! 2) else None)
      else None)"

definition record_of :: "string \<times> string \<Rightarrow> pydict" where
  "record_of r = [''accession'' \<mapsto> fst r, ''taxid'' \<mapsto> snd r]"

text \<open>A line that has a row whose taxonomic id is known.\<close>

definition known_row :: "string set \<Rightarrow> string \<Rightarrow> bool" where
  "known_row known line = (case row_of line of None \<Rightarrow> False | Some (a, t) \<Rightarrow> t \<in> known)"

text \<open>
  The stream of eligible records, as the specification describes the filter, without
  any batching: a row is dropped when its taxonomic id is not known; in default mode
  it is dropped when its accession has been seen in this pass, and its accession is
  recorded as seen when the store has no record of it; every other row gives a record.
\<close>

fun eligible_records ::
  "bool \<Rightarrow> store \<Rightarrow> string set \<Rightarrow> string set \<Rightarrow> (string \<times> string) list \<Rightarrow> pydict list" where
  "eligible_records fast_mode st known seen [] = []"
| "eligible_records fast_mode st known seen ((a, t) # rows) =
     (if t \<notin> known then eligible_records fast_mode st known seen rows
      else if fast_mode then record_of (a, t) # eligible_records fast_mode st known seen rows
      else if a \<in> seen then eligible_records fast_mode st known seen rows
      else record_of (a, t) #
           eligible_records fast_mode st known (if has_accession st a then seen else insert a seen) rows)"

text \<open>All records appended so far, in order: those already yielded, then the open batch.\<close>

definition stream_view :: "gen_state \<Rightarrow> pydict list" where
  "stream_view s = concat (yielded s) @ entries s"

text \<open>How often an accession is emitted, and on how many rows with a known id it stands.\<close>

definition emitted :: "string \<Rightarrow> pydict list \<Rightarrow> nat" where
  "emitted a ds = length (filter (\<lambda>d. d ''accession'' = Some a) ds)"

definition occurrences :: "string set \<Rightarrow> string \<Rightarrow> (string \<times> string) list \<Rightarrow> nat" where
  "occurrences known a rows = length (filter (\<lambda>(a', t). a' = a \<and> t \<in> known) rows)"

text \<open>The invariant of the loop of \<^const>\<open>for_line_in\<close> for a chunk size \<open>c\<close>.\<close>

definition batch_inv :: "int \<Rightarrow> gen_state \<Rightarrow> bool" where
  "batch_inv c s =
     (counter s = int (length (entries s)) \<and> int (length (entries s)) < c
      \<and> list_all (\<lambda>b. int (length b) = c) (yielded s))"

text \<open>A record whose taxonomic id is known, and a record whose taxonomic id is new.\<close>

definition references_known :: "string set \<Rightarrow> pydict \<Rightarrow> bool" where
  "references_known known d = (case d ''taxid'' of None \<Rightarrow> False | Some t \<Rightarrow> t \<in> known)"

definition new_id :: "string set \<Rightarrow> pydict \<Rightarrow> bool" where
  "new_id known d = (case d ''ncbi_taxid'' of None \<Rightarrow> False | Some i \<Rightarrow> i \<notin> known)"

text \<open>The taxonomic id of a line of \<^verbatim>\<open>nodes.dmp\<close> or \<^verbatim>\<open>names.dmp\<close> (column 0).\<close>

definition line_id :: "string \<Rightarrow> string" where
  "line_id line = (case split CHR ''|'' line of [] \<Rightarrow> [] | c0 # _ \<Rightarrow> strip TAB c0)"

text \<open>The shape of the dictionaries built from a line of each file.\<close>

definition node_record :: "string set \<Rightarrow> pydict \<Rightarrow> bool" where
  "node_record known d =
     (dom d = {''ncbi_taxid'', ''parent_taxid'', ''tax_name'', ''lineage_level''}
      \<and> new_id known d)"

definition name_record :: "string set \<Rightarrow> pydict \<Rightarrow> bool" where
  "name_record known d = (dom d = {''ncbi_taxid'', ''tax_name''} \<and> new_id known d)"

text \<open>The four fields of a merged record, in a fixed order.\<close>

definition fields_of :: "pydict \<Rightarrow> string option list" where
  "fields_of d = map d [''ncbi_taxid'', ''parent_taxid'', ''tax_name'', ''lineage_level'']"

subsection \<open>A small environment on which the statements are run\<close>

definition tsv :: "string \<Rightarrow> string \<Rightarrow> string \<Rightarrow> string" where
  "tsv a v t = a @ [TAB] @ v @ [TAB] @ t @ [NL]"

definition example_nodes_lines :: "string list" where
  "example_nodes_lines = [''9606|9605|species'', ''9605|9604|genus'', ''1|1|no rank'']"

definition example_names_lines :: "string list" where
  "example_names_lines =
     [''9606|Homo sapiens|scientific name'', ''9605|humans|common name'',
      ''9605|Homo|scientific name'']"

definition example_acc_lines :: "string list" where
  "example_acc_lines =
     [''accession'', tsv ''A1'' ''A1.1'' ''9606'', tsv ''A2'' ''A2.1'' ''555'',
      tsv ''A1'' ''A1.1'' ''9606'', tsv ''A3'' ''A3.1'' ''9606'', tsv ''A3'' ''A3.2'' ''9606'']"

definition example_rows :: "(string \<times> string) list" where
  "example_rows =
     [(''A1'', ''9606''), (''A2'', ''555''), (''A1'', ''9606''), (''A3'', ''9606''),
      (''A3'', ''9606'')]"

definition example_fs :: filesystem where
  "example_fs =
     [''nodes.dmp'' \<mapsto> RegularFile example_nodes_lines,
      ''names.dmp'' \<mapsto> RegularFile example_names_lines,
      ''acc.gz'' \<mapsto> RegularFile example_acc_lines,
      ''taxdump'' \<mapsto> Directory]"

definition example_store :: store where
  "example_store = \<lparr>taxa_ncbi_taxid = [''9606''], has_accession = (\<lambda>a. a = ''A3'')\<rparr>"

definition empty_store :: store where
  "empty_store = \<lparr>taxa_ncbi_taxid = [], has_accession = (\<lambda>a. False)\<rparr>"

definition example_dump_parser :: TaxaDumpParser where
  "example_dump_parser = \<lparr>nodes_file = Some ''nodes.dmp'', names_file = Some ''names.dmp''\<rparr>"

definition example_acc_parser :: Accession2TaxidParser where
  "example_acc_parser = \<lparr>acc_file = Some ''acc.gz'', chunk = 2, fast = False\<rparr>"

definition example_fast_parser :: Accession2TaxidParser where
  "example_fast_parser = \<lparr>acc_file = Some ''acc.gz'', chunk = 2, fast = True\<rparr>"

definition example_nodes_data :: "pydict list" where
  "example_nodes_data =
     [[''ncbi_taxid'' \<mapsto> ''9605'', ''parent_taxid'' \<mapsto> ''9604'', ''tax_name'' \<mapsto> '''',
       ''lineage_level'' \<mapsto> ''genus''],
      [''ncbi_taxid'' \<mapsto> ''1'', ''parent_taxid'' \<mapsto> ''1'', ''tax_name'' \<mapsto> '''',
       ''lineage_level'' \<mapsto> ''no rank'']]"

definition example_names_data :: "pydict list" where
  "example_names_data = [[''ncbi_taxid'' \<mapsto> ''9605'', ''tax_name'' \<mapsto> ''Homo'']]"

text \<open>
  Two accession files whose last line has a single column: the same accession on two
  eligible lines before it, once an accession the store does not have, once one it has.
\<close>

definition truncated_a1_lines :: "string list" where
  "truncated_a1_lines =
     [''accession'', tsv ''A1'' ''A1.1'' ''9606'', tsv ''A1'' ''A1.2'' ''9606'', ''bad'' @ [NL]]"

definition truncated_a3_lines :: "string list" where
  "truncated_a3_lines =
     [''accession'', tsv ''A3'' ''A3.1'' ''9606'', tsv ''A3'' ''A3.2'' ''9606'', ''bad'' @ [NL]]"

definition truncated_fs :: filesystem where
  "truncated_fs =
     [''a1.gz'' \<mapsto> RegularFile truncated_a1_lines, ''a3.gz'' \<mapsto> RegularFile truncated_a3_lines]"

section \<open>Properties of \<^const>\<open>check_file\<close> and of the setters\<close>

lemma check_file_valid: "valid_path fs element \<Longrightarrow> check_file fs element = Inr True"
  by (cases element) (simp_all add: valid_path_def check_file_def)

lemma check_file_invalid:
  "\<not> valid_path fs element \<Longrightarrow> \<exists>f. check_file fs element = Inl f \<and> exn f = SystemExit 1"
  by (cases element) (auto simp: valid_path_def check_file_def fatal_def)

lemma check_file_Inr_iff: "check_file fs element = Inr b \<longleftrightarrow> b \<and> valid_path fs element"
  by (cases element) (auto simp: valid_path_def check_file_def)

lemma example_fs_paths:
  "valid_path example_fs (Some ''nodes.dmp'')"
  "valid_path example_fs (Some ''names.dmp'')"
  "valid_path example_fs (Some ''acc.gz'')"
  "\<not> valid_path example_fs (Some ''taxdump'')"
  "\<not> valid_path example_fs (Some ''missing'')"
  "\<not> valid_path example_fs None"
  "path_exists example_fs ''taxdump''" "\<not> path_isfile example_fs ''taxdump''"
  "\<not> path_exists example_fs ''missing''"
  by (simp_all add: valid_path_def example_fs_def path_exists_def path_isfile_def)

text \<open>
  C6, as the code has it. \<^const>\<open>check_file\<close> returns \<^verbatim>\<open>True\<close> exactly when the path
  is set, exists and is a regular file. Otherwise it ends in \<^verbatim>\<open>fatal\<close>, and in each of
  the three cases the exception is the same \<^verbatim>\<open>SystemExit\<close> with status 1: an unset
  path, a missing path and a path that is not a regular file differ only in the line
  printed on standard error.
\<close>

theorem check_file_outcomes:
  "(check_file fs element = Inr True \<longleftrightarrow>
      (\<exists>p. element = Some p \<and> path_exists fs p \<and> path_isfile fs p))
   \<and> (element = None \<longrightarrow>
        check_file fs element =
          Inl \<lparr>stderr = [''[FATAL] Please provide an input file to check''], exn = SystemExit 1\<rparr>)
   \<and> (\<forall>p. element = Some p \<and> \<not> path_exists fs p \<longrightarrow>
        check_file fs element =
          Inl \<lparr>stderr = [''[FATAL] File '' @ p @ '' does not exist''], exn = SystemExit 1\<rparr>)
   \<and> (\<forall>p. element = Some p \<and> path_exists fs p \<and> \<not> path_isfile fs p \<longrightarrow>
        check_file fs element =
          Inl \<lparr>stderr = [''[FATAL] '' @ p @ '' is not a file''], exn = SystemExit 1\<rparr>)
   \<and> (\<forall>f. check_file fs element = Inl f \<longrightarrow> exn f = SystemExit 1)"
  by (cases element) (auto simp: check_file_def fatal_def)

theorem check_file_outcomes_witness:
  "check_file example_fs (Some ''acc.gz'') = Inr True
   \<and> check_file example_fs None =
       Inl \<lparr>stderr = [''[FATAL] Please provide an input file to check''], exn = SystemExit 1\<rparr>
   \<and> check_file example_fs (Some ''missing'') =
       Inl \<lparr>stderr = [''[FATAL] File missing does not exist''], exn = SystemExit 1\<rparr>
   \<and> check_file example_fs (Some ''taxdump'') =
       Inl \<lparr>stderr = [''[FATAL] taxdump is not a file''], exn = SystemExit 1\<rparr>"
  using check_file_outcomes [of example_fs "Some ''acc.gz''"]
        check_file_outcomes [of example_fs None]
        check_file_outcomes [of example_fs "Some ''missing''"]
        check_file_outcomes [of example_fs "Some ''taxdump''"]
        example_fs_paths
  by (simp add: valid_path_def)

text \<open>
  C6 as the specification words it asks for three distinct errors. On the code the
  exceptions of the three failing cases are one and the same.
\<close>

theorem check_file_same_exception:
  "\<not> (raised_exn (check_file example_fs None) \<noteq> raised_exn (check_file example_fs (Some ''missing''))
      \<and> raised_exn (check_file example_fs (Some ''missing'')) \<noteq> raised_exn (check_file example_fs (Some ''taxdump''))
      \<and> raised_exn (check_file example_fs None) \<noteq> raised_exn (check_file example_fs (Some ''taxdump'')))"
  using example_fs_paths by (simp add: check_file_def fatal_def raised_exn_def)

text \<open>
  C7. Each setter checks its argument before the assignment. With an argument that is
  unset, missing or not a regular file the setter fails and the parser keeps its
  stored path (all of its fields); with a valid argument the setter returns
  \<^verbatim>\<open>True\<close> and the stored path is the argument.
\<close>

theorem setters_check_before_assignment:
  "(valid_path fs a \<longrightarrow>
      set_nodes_file dp fs a = (Inr True, dp\<lparr>nodes_file := a\<rparr>)
      \<and> set_names_file dp fs a = (Inr True, dp\<lparr>names_file := a\<rparr>)
      \<and> set_accession_file ap fs a = (Inr True, ap\<lparr>acc_file := a\<rparr>))
   \<and> (\<not> valid_path fs a \<longrightarrow>
      snd (set_nodes_file dp fs a) = dp \<and> raised_exn (fst (set_nodes_file dp fs a)) = Some (SystemExit 1)
      \<and> snd (set_names_file dp fs a) = dp \<and> raised_exn (fst (set_names_file dp fs a)) = Some (SystemExit 1)
      \<and> snd (set_accession_file ap fs a) = ap
      \<and> raised_exn (fst (set_accession_file ap fs a)) = Some (SystemExit 1))"
proof (intro conjI impI)
  assume v: "valid_path fs a"
  then have "a \<noteq> None" by (auto simp: valid_path_def split: option.splits)
  with check_file_valid [OF v]
  show "set_nodes_file dp fs a = (Inr True, dp\<lparr>nodes_file := a\<rparr>)"
    and "set_names_file dp fs a = (Inr True, dp\<lparr>names_file := a\<rparr>)"
    and "set_accession_file ap fs a = (Inr True, ap\<lparr>acc_file := a\<rparr>)"
    by (simp_all add: set_nodes_file_def set_names_file_def set_accession_file_def)
next
  assume "\<not> valid_path fs a"
  from check_file_invalid [OF this] obtain f
    where f: "check_file fs a = Inl f" "exn f = SystemExit 1" by blast
  then show "snd (set_nodes_file dp fs a) = dp"
    and "raised_exn (fst (set_nodes_file dp fs a)) = Some (SystemExit 1)"
    and "snd (set_names_file dp fs a) = dp"
    and "raised_exn (fst (set_names_file dp fs a)) = Some (SystemExit 1)"
    and "snd (set_accession_file ap fs a) = ap"
    and "raised_exn (fst (set_accession_file ap fs a)) = Some (SystemExit 1)"
    by (simp_all add: set_nodes_file_def set_names_file_def set_accession_file_def
          raised_exn_def fatal_def)
qed

theorem setters_check_before_assignment_witness:
  "set_nodes_file example_dump_parser example_fs (Some ''names.dmp'')
     = (Inr True, \<lparr>nodes_file = Some ''names.dmp'', names_file = Some ''names.dmp''\<rparr>)
   \<and> snd (set_nodes_file example_dump_parser example_fs (Some ''taxdump'')) = example_dump_parser
   \<and> snd (set_names_file example_dump_parser example_fs (Some ''missing'')) = example_dump_parser
   \<and> snd (set_accession_file example_acc_parser example_fs None) = example_acc_parser"
  using setters_check_before_assignment [of example_fs "Some ''names.dmp''" example_dump_parser]
        setters_check_before_assignment [of example_fs "Some ''taxdump''" example_dump_parser]
        setters_check_before_assignment [of example_fs "Some ''missing''" example_dump_parser]
        setters_check_before_assignment [of example_fs None _ example_acc_parser]
        example_fs_paths
  by (simp add: example_dump_parser_def)

section \<open>The loop of \<^const>\<open>accession2taxid\<close>\<close>

lemma dom_known_ids: "dom (known_ids st) = set (taxa_ncbi_taxid st)"
  by (simp add: known_ids_def dom_map_of_conv_image_fst image_image)

text \<open>A call either fails before reading, or runs the loop on the lines after the header.\<close>

lemma accession2taxid_run_lines:
  "fs p = Some (RegularFile f) \<Longrightarrow> acc_path self arg = Some p \<Longrightarrow>
   accession2taxid self st fs arg ca =
     run_lines (fast self) st (known_ids st) (effective_chunk self ca) (drop 1 f)"
  by (simp add: accession2taxid_def acc_path_def check_file_def path_exists_def path_isfile_def
        open_file_def Let_def)

lemma accession2taxid_cases:
  "fst (accession2taxid self st fs arg ca) = []
   \<or> accession2taxid self st fs arg ca =
       run_lines (fast self) st (known_ids st) (effective_chunk self ca)
         (input_rows fs (acc_path self arg))"
  by (auto simp: accession2taxid_def acc_path_def input_rows_def Let_def split: sum.splits)

lemma effective_chunk_passed: "c \<noteq> 0 \<Longrightarrow> effective_chunk self (Passed (Some c)) = c"
  by (simp add: effective_chunk_def)

lemma effective_chunk_omitted: "effective_chunk self Omitted = 500"
  by (simp add: effective_chunk_def)

subsection \<open>One line\<close>

lemma loop_body_malformed:
  "row_of line = None \<Longrightarrow> \<exists>e. loop_body fm st taxids c s line = Inl e"
  by (auto simp: row_of_def loop_body_def decode_def getitem_def Let_def split: if_splits)

lemma loop_body_row:
  assumes "row_of line = Some (a, t)"
  shows "\<exists>s'. loop_body fm st taxids c s line = Inr s'
    \<and> stream_view s' = stream_view s @
         (if t \<in> dom taxids \<and> (fm \<or> a \<notin> dom (accessions s)) then [record_of (a, t)] else [])
    \<and> dom (accessions s') =
         (if t \<in> dom taxids \<and> \<not> fm \<and> a \<notin> dom (accessions s) \<and> \<not> has_accession st a
          then insert a (dom (accessions s)) else dom (accessions s))"
  using assms
  by (auto simp: row_of_def loop_body_def decode_def getitem_def Let_def stream_view_def
        record_of_def split: if_splits)

lemma loop_body_batch_inv:
  "batch_inv c s \<Longrightarrow> loop_body fm st taxids c s line = Inr s' \<Longrightarrow> batch_inv c s'"
  by (auto simp: loop_body_def batch_inv_def Let_def split: sum.splits if_splits)

lemma loop_body_unknown:
  "\<not> known_row (dom taxids) line \<Longrightarrow> loop_body fm st taxids c s line = Inr s' \<Longrightarrow> s' = s"
  by (auto simp: known_row_def row_of_def loop_body_def decode_def getitem_def Let_def
      split: if_splits)

lemma loop_body_references_known:
  "list_all (references_known (dom taxids)) (stream_view s) \<Longrightarrow>
   loop_body fm st taxids c s line = Inr s' \<Longrightarrow>
   list_all (references_known (dom taxids)) (stream_view s')"
  by (auto simp: loop_body_def stream_view_def references_known_def Let_def
      split: sum.splits if_splits)

lemma loop_body_stored_not_seen:
  "has_accession st a \<Longrightarrow> a \<notin> dom (accessions s) \<Longrightarrow>
   loop_body False st taxids c s line = Inr s' \<Longrightarrow> a \<notin> dom (accessions s')"
  by (auto simp: loop_body_def Let_def split: sum.splits if_splits)

subsection \<open>All lines\<close>

lemma for_line_in_stream:
  "map row_of f = map Some rows \<Longrightarrow>
   \<exists>s'. for_line_in fm st taxids c s f = (s', None)
     \<and> stream_view s' =
         stream_view s @ eligible_records fm st (dom taxids) (dom (accessions s)) rows"
proof (induction f arbitrary: s rows)
  case Nil
  then show ?case by simp
next
  case (Cons line f)
  then obtain a t rows' where r: "row_of line = Some (a, t)" "rows = (a, t) # rows'"
    "map row_of f = map Some rows'" by (cases rows) auto
  from loop_body_row [OF r(1), of fm st taxids c s] obtain s1 where
    s1: "loop_body fm st taxids c s line = Inr s1"
      "stream_view s1 = stream_view s @
         (if t \<in> dom taxids \<and> (fm \<or> a \<notin> dom (accessions s)) then [record_of (a, t)] else [])"
      "dom (accessions s1) =
         (if t \<in> dom taxids \<and> \<not> fm \<and> a \<notin> dom (accessions s) \<and> \<not> has_accession st a
          then insert a (dom (accessions s)) else dom (accessions s))"
    by blast
  from Cons.IH [OF r(3), of s1] obtain s' where
    s': "for_line_in fm st taxids c s1 f = (s', None)"
      "stream_view s' =
         stream_view s1 @ eligible_records fm st (dom taxids) (dom (accessions s1)) rows'"
    by blast
  show ?case
    using r s1 s' by (auto simp del: dom_eq_empty_conv)
qed

lemma for_line_in_batch_inv:
  "batch_inv c s \<Longrightarrow> batch_inv c (fst (for_line_in fm st taxids c s f))"
  by (induction f arbitrary: s) (auto split: sum.splits dest: loop_body_batch_inv)

lemma for_line_in_unknown:
  "\<forall>l\<in>set f. \<not> known_row (dom taxids) l \<Longrightarrow> fst (for_line_in fm st taxids c s f) = s"
  by (induction f arbitrary: s) (auto split: sum.splits dest: loop_body_unknown)

lemma for_line_in_references_known:
  "list_all (references_known (dom taxids)) (stream_view s) \<Longrightarrow>
   list_all (references_known (dom taxids)) (stream_view (fst (for_line_in fm st taxids c s f)))"
  by (induction f arbitrary: s) (auto split: sum.splits dest: loop_body_references_known)

lemma for_line_in_stored_not_seen:
  "has_accession st a \<Longrightarrow> a \<notin> dom (accessions s) \<Longrightarrow>
   a \<notin> dom (accessions (fst (for_line_in False st taxids c s f)))"
  by (induction f arbitrary: s) (auto split: sum.splits dest: loop_body_stored_not_seen)

subsection \<open>The batches of a run\<close>

lemma run_lines_fst:
  "for_line_in fm st taxids c init_state f = (s, e) \<Longrightarrow>
   fst (run_lines fm st taxids c f) =
     (if e = None \<and> entries s \<noteq> [] then yielded s @ [entries s] else yielded s)"
  by (cases e) (simp_all add: run_lines_def)

lemma run_lines_stream:
  assumes "map row_of f = map Some rows"
  shows "snd (run_lines fm st taxids c f) = None"
    and "concat (fst (run_lines fm st taxids c f)) = eligible_records fm st (dom taxids) {} rows"
proof -
  from for_line_in_stream [OF assms, of fm st taxids c init_state] obtain s' where
    s': "for_line_in fm st taxids c init_state f = (s', None)"
      "stream_view s' = eligible_records fm st (dom taxids) {} rows"
    by (auto simp: stream_view_def init_state_def)
  then show "snd (run_lines fm st taxids c f) = None"
    and "concat (fst (run_lines fm st taxids c f)) = eligible_records fm st (dom taxids) {} rows"
    by (auto simp: run_lines_def stream_view_def)
qed

lemma run_lines_batch_sizes:
  assumes "1 \<le> c"
  shows "\<forall>b\<in>set (butlast (fst (run_lines fm st taxids c f))). int (length b) = c"
    and "fst (run_lines fm st taxids c f) \<noteq> [] \<Longrightarrow>
           1 \<le> length (last (fst (run_lines fm st taxids c f)))
           \<and> int (length (last (fst (run_lines fm st taxids c f)))) \<le> c"
proof -
  obtain s e where se: "for_line_in fm st taxids c init_state f = (s, e)" by force
  have "batch_inv c init_state" using assms by (simp add: batch_inv_def init_state_def)
  from for_line_in_batch_inv [OF this, of fm st taxids f] se have inv: "batch_inv c s" by simp
  then have all: "\<forall>b\<in>set (yielded s). int (length b) = c"
    and ent: "int (length (entries s)) < c"
    by (simp_all add: batch_inv_def list_all_iff)
  note fst_eq = run_lines_fst [OF se]
  show "\<forall>b\<in>set (butlast (fst (run_lines fm st taxids c f))). int (length b) = c"
    using all by (auto simp: fst_eq dest: in_set_butlastD)
  show "1 \<le> length (last (fst (run_lines fm st taxids c f)))
           \<and> int (length (last (fst (run_lines fm st taxids c f)))) \<le> c"
    if "fst (run_lines fm st taxids c f) \<noteq> []"
  proof (cases "e = None \<and> entries s \<noteq> []")
    case True
    then show ?thesis using ent by (cases "entries s") (auto simp: fst_eq)
  next
    case False
    with that have ne: "yielded s \<noteq> []" by (auto simp: fst_eq)
    then have "last (yielded s) \<in> set (yielded s)" by simp
    with all have "int (length (last (yielded s))) = c" by blast
    with False assms show ?thesis by (auto simp: fst_eq)
  qed
qed

lemma run_lines_unknown:
  assumes "\<forall>l\<in>set f. \<not> known_row (dom taxids) l"
  shows "fst (run_lines fm st taxids c f) = []"
proof -
  obtain s e where se: "for_line_in fm st taxids c init_state f = (s, e)" by force
  with for_line_in_unknown [OF assms, of fm st c init_state] have "s = init_state" by simp
  with se show ?thesis by (cases e) (simp_all add: run_lines_def init_state_def)
qed

lemma run_lines_references_known:
  "\<forall>b\<in>set (fst (run_lines fm st taxids c f)). \<forall>d\<in>set b. references_known (dom taxids) d"
proof -
  obtain s e where se: "for_line_in fm st taxids c init_state f = (s, e)" by force
  have "list_all (references_known (dom taxids)) (stream_view init_state)"
    by (simp add: stream_view_def init_state_def)
  from for_line_in_references_known [OF this, of fm st c f] se
  have "\<forall>d\<in>set (stream_view s). references_known (dom taxids) d"
    by (simp add: list_all_iff)
  then show ?thesis
    by (auto simp: run_lines_fst [OF se] stream_view_def)
qed

subsection \<open>Counting an accession in the eligible stream\<close>

lemma emitted_Nil: "emitted a [] = 0"
  by (simp add: emitted_def)

lemma emitted_record:
  "emitted a (record_of (a', t) # ds) = (if a' = a then 1 else 0) + emitted a ds"
  by (simp add: emitted_def record_of_def)

lemma occurrences_Nil: "occurrences known a [] = 0"
  by (simp add: occurrences_def)

lemma occurrences_Cons:
  "occurrences known a ((a', t) # rows) =
     (if a' = a \<and> t \<in> known then 1 else 0) + occurrences known a rows"
  by (simp add: occurrences_def)

lemma emitted_fast:
  "emitted a (eligible_records True st known seen rows) = occurrences known a rows"
  by (induction rows) (auto simp: emitted_Nil emitted_record occurrences_Nil occurrences_Cons)

lemma emitted_seen:
  "a \<in> seen \<Longrightarrow> emitted a (eligible_records False st known seen rows) = 0"
  by (induction rows arbitrary: seen) (auto simp: emitted_Nil emitted_record)

lemma emitted_stored:
  "has_accession st a \<Longrightarrow> a \<notin> seen \<Longrightarrow>
   emitted a (eligible_records False st known seen rows) = occurrences known a rows"
  by (induction rows arbitrary: seen)
     (auto simp: emitted_Nil emitted_record occurrences_Nil occurrences_Cons)

lemma emitted_fresh:
  "\<not> has_accession st a \<Longrightarrow> a \<notin> seen \<Longrightarrow>
   emitted a (eligible_records False st known seen rows) =
     (if occurrences known a rows = 0 then 0 else 1)"
  by (induction rows arbitrary: seen)
     (auto simp: emitted_Nil emitted_record occurrences_Nil occurrences_Cons emitted_seen
        split: if_splits)

subsection \<open>The example file\<close>

lemma example_acc_file: "example_fs ''acc.gz'' = Some (RegularFile example_acc_lines)"
  by (simp add: example_fs_def)

lemma example_rows_parse: "map row_of (drop 1 example_acc_lines) = map Some example_rows"
  by code_simp

lemma example_acc_paths:
  "acc_path example_acc_parser None = Some ''acc.gz''"
  "acc_path example_fast_parser None = Some ''acc.gz''"
  by (simp_all add: acc_path_def example_acc_parser_def example_fast_parser_def)

section \<open>Properties of \<^const>\<open>accession2taxid\<close>\<close>

text \<open>
  C2. With a chunk size \<open>c \<ge> 1\<close> given at the call, for every file, KnownIdSet and
  store: every yielded batch but the last has exactly \<open>c\<close> records, the last one has
  between 1 and \<open>c\<close>, and no batch is yielded when no line after the header has a row
  with a known taxonomic id. This holds for the batches yielded before a failure as well.
\<close>

theorem accession2taxid_batch_sizes:
  assumes "1 \<le> c"
  shows "(\<forall>b\<in>set (butlast (fst (accession2taxid self st fs arg (Passed (Some c))))).
            int (length b) = c)
    \<and> (fst (accession2taxid self st fs arg (Passed (Some c))) \<noteq> [] \<longrightarrow>
         1 \<le> length (last (fst (accession2taxid self st fs arg (Passed (Some c)))))
         \<and> int (length (last (fst (accession2taxid self st fs arg (Passed (Some c)))))) \<le> c)
    \<and> ((\<forall>l\<in>set (input_rows fs (acc_path self arg)).
            \<not> known_row (set (taxa_ncbi_taxid st)) l) \<longrightarrow>
         fst (accession2taxid self st fs arg (Passed (Some c))) = [])"
proof -
  let ?r = "accession2taxid self st fs arg (Passed (Some c))"
  from assms have c: "effective_chunk self (Passed (Some c)) = c"
    by (simp add: effective_chunk_passed)
  from accession2taxid_cases [of self st fs arg "Passed (Some c)"]
  show ?thesis
  proof
    assume "fst ?r = []"
    then show ?thesis by simp
  next
    assume "?r = run_lines (fast self) st (known_ids st)
        (effective_chunk self (Passed (Some c))) (input_rows fs (acc_path self arg))"
    then have r: "?r = run_lines (fast self) st (known_ids st) c (input_rows fs (acc_path self arg))"
      by (simp only: c)
    show ?thesis
      unfolding r
      using run_lines_batch_sizes [OF assms, of "fast self" st "known_ids st"
          "input_rows fs (acc_path self arg)"]
        run_lines_unknown [of "input_rows fs (acc_path self arg)" "known_ids st" "fast self" st c]
      by (simp add: dom_known_ids)
  qed
qed

theorem accession2taxid_batch_sizes_witness:
  "(1::int) \<le> 2
   \<and> map length (fst (accession2taxid example_acc_parser example_store example_fs None (Passed (Some 2))))
       = [2, 1]
   \<and> list_all (\<lambda>b. int (length b) = 2)
       (butlast (fst (accession2taxid example_acc_parser example_store example_fs None (Passed (Some 2)))))
   \<and> int (length (last (fst (accession2taxid example_acc_parser example_store example_fs None
        (Passed (Some 2)))))) \<le> 2
   \<and> list_all (\<lambda>l. \<not> known_row (set (taxa_ncbi_taxid empty_store)) l)
       (input_rows example_fs (acc_path example_acc_parser None))
   \<and> fst (accession2taxid example_acc_parser empty_store example_fs None (Passed (Some 2))) = []"
proof -
  have one: "(1::int) \<le> 2" by simp
  have lens: "map length (fst (accession2taxid example_acc_parser example_store example_fs None
      (Passed (Some 2)))) = [2, 1]"
    by code_simp
  then have ne: "fst (accession2taxid example_acc_parser example_store example_fs None
      (Passed (Some 2))) \<noteq> []" by auto
  have none: "\<forall>l\<in>set (input_rows example_fs (acc_path example_acc_parser None)).
      \<not> known_row (set (taxa_ncbi_taxid empty_store)) l"
    by (simp add: empty_store_def known_row_def split: option.splits)
  from accession2taxid_batch_sizes [OF one, of example_acc_parser example_store example_fs None]
    accession2taxid_batch_sizes [OF one, of example_acc_parser empty_store example_fs None]
    lens ne none
  show ?thesis by (simp add: list_all_iff)
qed

text \<open>
  C8. The first line of the accession file is taken off before the loop: a call on a
  file \<open>h # rest\<close> is the run of the loop on \<open>rest\<close>, whatever \<open>h\<close> is, so two files
  that differ in their first line only give the same batches and the same outcome,
  and a file that has only its first line yields nothing and does not fail.
\<close>

theorem header_line_discarded:
  "accession2taxid self st (fs(p \<mapsto> RegularFile (h # rest))) (Some p) ca
     = run_lines (fast self) st (known_ids st) (effective_chunk self ca) rest
   \<and> accession2taxid self st (fs(p \<mapsto> RegularFile (h # rest))) (Some p) ca
     = accession2taxid self st (fs(p \<mapsto> RegularFile (h' # rest))) (Some p) ca
   \<and> accession2taxid self st (fs(p \<mapsto> RegularFile [h])) (Some p) ca = ([], None)"
proof -
  have run: "accession2taxid self st (fs(p \<mapsto> RegularFile (x # xs))) (Some p) ca
      = run_lines (fast self) st (known_ids st) (effective_chunk self ca) xs" for x xs
    using accession2taxid_run_lines [of "fs(p \<mapsto> RegularFile (x # xs))" p "x # xs" self "Some p" st ca]
    by (simp add: acc_path_def)
  have "run_lines (fast self) st (known_ids st) (effective_chunk self ca) [] = ([], None)"
    by (simp add: run_lines_def init_state_def)
  then show ?thesis by (simp add: run)
qed

theorem header_line_discarded_witness:
  "accession2taxid example_acc_parser example_store
      (example_fs(''acc.gz'' \<mapsto> RegularFile ([CHR 0xFF] # drop 1 example_acc_lines))) (Some ''acc.gz'') Omitted
     = accession2taxid example_acc_parser example_store
      (example_fs(''acc.gz'' \<mapsto> RegularFile (tsv ''A9'' ''A9.1'' ''9606'' # drop 1 example_acc_lines)))
      (Some ''acc.gz'') Omitted
   \<and> accession2taxid example_acc_parser example_store
      (example_fs(''acc.gz'' \<mapsto> RegularFile [tsv ''A9'' ''A9.1'' ''9606''])) (Some ''acc.gz'') Omitted
     = ([], None)
   \<and> row_of [CHR 0xFF] = None
   \<and> row_of (tsv ''A9'' ''A9.1'' ''9606'') = Some (''A9'', ''9606'')"
proof -
  have rows: "row_of [CHR 0xFF] = None"
    "row_of (tsv ''A9'' ''A9.1'' ''9606'') = Some (''A9'', ''9606'')"
    by code_simp+
  note same = header_line_discarded [of example_acc_parser example_store example_fs "''acc.gz''"
      "[CHR 0xFF]" "drop 1 example_acc_lines" Omitted "tsv ''A9'' ''A9.1'' ''9606''",
      THEN conjunct2, THEN conjunct1]
  note only = header_line_discarded [of example_acc_parser example_store example_fs "''acc.gz''"
      "tsv ''A9'' ''A9.1'' ''9606''" "[]" Omitted "[]", THEN conjunct2, THEN conjunct2]
  from same only rows show ?thesis by blast
qed

text \<open>
  C10 as it is stated, for every input, fails on a file with a malformed line. In
  \<^const>\<open>truncated_a1_lines\<close> the first line after the header has an eligible row and the
  last line has one column: \<^verbatim>\<open>line_list[2]\<close> raises \<^verbatim>\<open>IndexError\<close> before the open
  batch is yielded, so the generator yields nothing and the eligible record is lost.
\<close>

theorem malformed_line_loses_open_batch:
  "map row_of (drop 1 truncated_a1_lines)
     = [Some (''A1'', ''9606''), Some (''A1'', ''9606''), None]
   \<and> map_option exn (snd (accession2taxid example_acc_parser example_store truncated_fs
        (Some ''a1.gz'') Omitted)) = Some IndexError
   \<and> \<not> (concat (fst (accession2taxid example_acc_parser example_store truncated_fs
            (Some ''a1.gz'') Omitted))
         = eligible_records (fast example_acc_parser) example_store
             (set (taxa_ncbi_taxid example_store)) {} [(''A1'', ''9606''), (''A1'', ''9606'')])"
proof -
  have rows: "map row_of (drop 1 truncated_a1_lines)
     = [Some (''A1'', ''9606''), Some (''A1'', ''9606''), None]"
    by code_simp
  have err: "map_option exn (snd (accession2taxid example_acc_parser example_store truncated_fs
        (Some ''a1.gz'') Omitted)) = Some IndexError"
    by code_simp
  have lhs: "map (\<lambda>d. d ''accession'')
      (concat (fst (accession2taxid example_acc_parser example_store truncated_fs
            (Some ''a1.gz'') Omitted))) = []"
    by code_simp
  have rhs: "map (\<lambda>d. d ''accession'')
      (eligible_records (fast example_acc_parser) example_store
             (set (taxa_ncbi_taxid example_store)) {} [(''A1'', ''9606''), (''A1'', ''9606'')])
      = [Some ''A1'']"
    by code_simp
  have ne: "concat (fst (accession2taxid example_acc_parser example_store truncated_fs
            (Some ''a1.gz'') Omitted))
         \<noteq> eligible_records (fast example_acc_parser) example_store
             (set (taxa_ncbi_taxid example_store)) {} [(''A1'', ''9606''), (''A1'', ''9606'')]"
  proof
    assume "concat (fst (accession2taxid example_acc_parser example_store truncated_fs
            (Some ''a1.gz'') Omitted))
         = eligible_records (fast example_acc_parser) example_store
             (set (taxa_ncbi_taxid example_store)) {} [(''A1'', ''9606''), (''A1'', ''9606'')]"
    then have "map (\<lambda>d. d ''accession'')
        (concat (fst (accession2taxid example_acc_parser example_store truncated_fs
            (Some ''a1.gz'') Omitted)))
      = map (\<lambda>d. d ''accession'')
        (eligible_records (fast example_acc_parser) example_store
             (set (taxa_ncbi_taxid example_store)) {} [(''A1'', ''9606''), (''A1'', ''9606'')])"
      by (rule arg_cong)
    then have "[] = [Some ''A1'']" unfolding lhs rhs .
    then show False by simp
  qed
  from rows err ne show ?thesis by blast
qed

text \<open>
  C10, as the code has it. For every accession file whose lines after the header all
  have a row (they decode and have at least three columns), the generator ends
  without a failure and the concatenation of its batches is the stream of eligible
  records in the order of the lines, for every chunk size and in both modes: batching
  drops, repeats and reorders nothing.
\<close>

theorem batches_concat_is_eligible_stream:
  assumes "fs p = Some (RegularFile f)" and "acc_path self arg = Some p"
    and "map row_of (drop 1 f) = map Some rows"
  shows "snd (accession2taxid self st fs arg ca) = None
    \<and> concat (fst (accession2taxid self st fs arg ca))
        = eligible_records (fast self) st (set (taxa_ncbi_taxid st)) {} rows"
  using run_lines_stream [OF assms(3), of "fast self" st "known_ids st" "effective_chunk self ca"]
  by (simp add: accession2taxid_run_lines [where fs = fs and p = p, OF assms(1,2)] dom_known_ids)

theorem batches_concat_is_eligible_stream_witness:
  "example_fs ''acc.gz'' = Some (RegularFile example_acc_lines)
   \<and> acc_path example_acc_parser None = Some ''acc.gz''
   \<and> map row_of (drop 1 example_acc_lines) = map Some example_rows
   \<and> snd (accession2taxid example_acc_parser example_store example_fs None (Passed (Some 2))) = None
   \<and> map (\<lambda>d. (d ''accession'', d ''taxid''))
       (concat (fst (accession2taxid example_acc_parser example_store example_fs None (Passed (Some 2)))))
     = [(Some ''A1'', Some ''9606''), (Some ''A3'', Some ''9606''), (Some ''A3'', Some ''9606'')]"
proof -
  have "map (\<lambda>d. (d ''accession'', d ''taxid''))
      (eligible_records (fast example_acc_parser) example_store
         (set (taxa_ncbi_taxid example_store)) {} example_rows)
    = [(Some ''A1'', Some ''9606''), (Some ''A3'', Some ''9606''), (Some ''A3'', Some ''9606'')]"
    by code_simp
  with batches_concat_is_eligible_stream [where fs = example_fs and p = "''acc.gz''",
      OF example_acc_file example_acc_paths(1) example_rows_parse,
      of example_store "Passed (Some 2)"]
    example_acc_file example_acc_paths(1) example_rows_parse
  show ?thesis by simp
qed

text \<open>
  C4 as the specification words it fails twice. In default mode an accession that the
  store already has is emitted on each of its lines: \<^verbatim>\<open>A3\<close> stands on two eligible
  lines of the example file and is emitted twice. And in both modes a malformed line
  after the two eligible lines raises before the open batch is yielded: \<^verbatim>\<open>A1\<close> stands
  on two eligible lines of \<^const>\<open>truncated_a1_lines\<close> and is not emitted at all.
\<close>

theorem duplicate_accession_claim_fails:
  "\<not> (\<not> fast example_acc_parser
        \<and> occurrences (set (taxa_ncbi_taxid example_store)) ''A3'' example_rows = 2
      \<longrightarrow> emitted ''A3''
            (concat (fst (accession2taxid example_acc_parser example_store example_fs None Omitted)))
          = 1)
   \<and> \<not> (\<not> fast example_acc_parser \<and> \<not> has_accession example_store ''A1''
        \<and> occurrences (set (taxa_ncbi_taxid example_store)) ''A1''
            (List.map_filter row_of (drop 1 truncated_a1_lines)) = 2
      \<longrightarrow> emitted ''A1''
            (concat (fst (accession2taxid example_acc_parser example_store truncated_fs
               (Some ''a1.gz'') Omitted)))
          = 1)
   \<and> \<not> (fast example_fast_parser
        \<and> occurrences (set (taxa_ncbi_taxid example_store)) ''A1''
            (List.map_filter row_of (drop 1 truncated_a1_lines)) = 2
      \<longrightarrow> emitted ''A1''
            (concat (fst (accession2taxid example_fast_parser example_store truncated_fs
               (Some ''a1.gz'') Omitted)))
          = 2)"
  by code_simp

text \<open>
  C4, as the code has it. For an accession file whose lines after the header all have
  a row (they decode and have at least three columns) and that has the same accession
  on two eligible lines: default mode emits the accession once when the store has no
  record of it and twice when the store already has it, and fast mode emits it twice.
\<close>

theorem duplicate_accession_default_and_fast:
  assumes "fs p = Some (RegularFile f)" and "acc_path self arg = Some p"
    and "map row_of (drop 1 f) = map Some rows"
    and "occurrences (set (taxa_ncbi_taxid st)) a rows = 2"
  shows "(\<not> fast self \<and> \<not> has_accession st a \<longrightarrow>
            emitted a (concat (fst (accession2taxid self st fs arg ca))) = 1)
    \<and> (\<not> fast self \<and> has_accession st a \<longrightarrow>
            emitted a (concat (fst (accession2taxid self st fs arg ca))) = 2)
    \<and> (fast self \<longrightarrow> emitted a (concat (fst (accession2taxid self st fs arg ca))) = 2)"
proof -
  have cat: "concat (fst (accession2taxid self st fs arg ca))
      = eligible_records (fast self) st (set (taxa_ncbi_taxid st)) {} rows"
    using run_lines_stream(2) [OF assms(3), of "fast self" st "known_ids st" "effective_chunk self ca"]
    by (simp add: accession2taxid_run_lines [where fs = fs and p = p, OF assms(1,2)] dom_known_ids)
  show ?thesis
    using assms(4) emitted_fast [of a st "set (taxa_ncbi_taxid st)" "{}" rows]
      emitted_fresh [of st a "{}" "set (taxa_ncbi_taxid st)" rows]
      emitted_stored [of st a "{}" "set (taxa_ncbi_taxid st)" rows]
    by (auto simp: cat)
qed

theorem duplicate_accession_default_and_fast_witness:
  "example_fs ''acc.gz'' = Some (RegularFile example_acc_lines)
   \<and> acc_path example_acc_parser None = Some ''acc.gz''
   \<and> acc_path example_fast_parser None = Some ''acc.gz''
   \<and> map row_of (drop 1 example_acc_lines) = map Some example_rows
   \<and> occurrences (set (taxa_ncbi_taxid example_store)) ''A1'' example_rows = 2
   \<and> occurrences (set (taxa_ncbi_taxid example_store)) ''A3'' example_rows = 2
   \<and> \<not> fast example_acc_parser \<and> \<not> has_accession example_store ''A1''
   \<and> emitted ''A1'' (concat (fst (accession2taxid example_acc_parser example_store example_fs None Omitted))) = 1
   \<and> has_accession example_store ''A3''
   \<and> emitted ''A3'' (concat (fst (accession2taxid example_acc_parser example_store example_fs None Omitted))) = 2
   \<and> fast example_fast_parser
   \<and> emitted ''A1'' (concat (fst (accession2taxid example_fast_parser example_store example_fs None Omitted))) = 2"
proof -
  have occ: "occurrences (set (taxa_ncbi_taxid example_store)) ''A1'' example_rows = 2"
    by code_simp
  have occ3: "occurrences (set (taxa_ncbi_taxid example_store)) ''A3'' example_rows = 2"
    by code_simp
  have modes: "\<not> fast example_acc_parser" "\<not> has_accession example_store ''A1''"
    "has_accession example_store ''A3''" "fast example_fast_parser"
    by (simp_all add: example_acc_parser_def example_fast_parser_def example_store_def)
  from duplicate_accession_default_and_fast [where fs = example_fs and p = "''acc.gz''",
      OF example_acc_file example_acc_paths(1) example_rows_parse occ, of Omitted]
    duplicate_accession_default_and_fast [where fs = example_fs and p = "''acc.gz''",
      OF example_acc_file example_acc_paths(1) example_rows_parse occ3, of Omitted]
    duplicate_accession_default_and_fast [where fs = example_fs and p = "''acc.gz''",
      OF example_acc_file example_acc_paths(2) example_rows_parse occ, of Omitted]
    example_acc_file example_acc_paths example_rows_parse occ occ3 modes
  show ?thesis by simp
qed

text \<open>
  C9 as it is stated fails on a file with a malformed line. \<^verbatim>\<open>A3\<close> is in the store and
  stands on two eligible lines of \<^const>\<open>truncated_a3_lines\<close>; in default mode the last
  line raises \<^verbatim>\<open>IndexError\<close> before the open batch is yielded, and \<^verbatim>\<open>A3\<close> is emitted
  not twice but never.
\<close>

theorem malformed_line_loses_stored_accession:
  "\<not> (has_accession example_store ''A3'' \<and> \<not> fast example_acc_parser
        \<and> occurrences (set (taxa_ncbi_taxid example_store)) ''A3''
            (List.map_filter row_of (drop 1 truncated_a3_lines)) = 2
      \<longrightarrow> emitted ''A3''
            (concat (fst (accession2taxid example_acc_parser example_store truncated_fs
               (Some ''a3.gz'') Omitted)))
          = 2)"
  by code_simp

text \<open>
  C9, as the code has it. In default mode an accession that the store already has is
  never put into the dictionary of seen accessions, whatever the lines are; and for a
  file whose lines after the header all have a row (they decode and have at least
  three columns), the generator ends without a failure and the accession is emitted
  once for each line on which it stands with a known taxonomic id.
\<close>

theorem stored_accession_never_deduplicated:
  assumes "has_accession st a" and "\<not> fast self"
    and "fs p = Some (RegularFile f)" and "acc_path self arg = Some p"
  shows "a \<notin> dom (accessions (fst (for_line_in (fast self) st (known_ids st)
              (effective_chunk self ca) init_state (drop 1 f))))
    \<and> (map row_of (drop 1 f) = map Some rows \<longrightarrow>
         snd (accession2taxid self st fs arg ca) = None
         \<and> emitted a (concat (fst (accession2taxid self st fs arg ca)))
             = occurrences (set (taxa_ncbi_taxid st)) a rows)"
proof (intro conjI impI)
  have "a \<notin> dom (accessions init_state)" by (simp add: init_state_def)
  from for_line_in_stored_not_seen [OF assms(1) this, of "known_ids st"
      "effective_chunk self ca" "drop 1 f"] assms(2)
  show "a \<notin> dom (accessions (fst (for_line_in (fast self) st (known_ids st)
              (effective_chunk self ca) init_state (drop 1 f))))"
    by simp
next
  assume rows: "map row_of (drop 1 f) = map Some rows"
  have run: "snd (accession2taxid self st fs arg ca) = None"
    "concat (fst (accession2taxid self st fs arg ca))
      = eligible_records False st (set (taxa_ncbi_taxid st)) {} rows"
    using run_lines_stream [OF rows, of "fast self" st "known_ids st" "effective_chunk self ca"]
      assms(2)
    by (simp_all add: accession2taxid_run_lines [where fs = fs and p = p, OF assms(3,4)] dom_known_ids)
  from emitted_stored [OF assms(1), of "{}" "set (taxa_ncbi_taxid st)" rows]
  have "emitted a (eligible_records False st (set (taxa_ncbi_taxid st)) {} rows)
      = occurrences (set (taxa_ncbi_taxid st)) a rows" by simp
  with run show "snd (accession2taxid self st fs arg ca) = None"
    and "emitted a (concat (fst (accession2taxid self st fs arg ca)))
             = occurrences (set (taxa_ncbi_taxid st)) a rows"
    by simp_all
qed

theorem stored_accession_never_deduplicated_witness:
  "has_accession example_store ''A3'' \<and> \<not> fast example_acc_parser
   \<and> example_fs ''acc.gz'' = Some (RegularFile example_acc_lines)
   \<and> acc_path example_acc_parser None = Some ''acc.gz''
   \<and> map row_of (drop 1 example_acc_lines) = map Some example_rows
   \<and> ''A3'' \<notin> dom (accessions (fst (for_line_in (fast example_acc_parser) example_store
        (known_ids example_store) (effective_chunk example_acc_parser Omitted) init_state
        (drop 1 example_acc_lines))))
   \<and> occurrences (set (taxa_ncbi_taxid example_store)) ''A3'' example_rows = 2
   \<and> snd (accession2taxid example_acc_parser example_store example_fs None Omitted) = None
   \<and> emitted ''A3''
       (concat (fst (accession2taxid example_acc_parser example_store example_fs None Omitted))) = 2"
proof -
  have occ: "occurrences (set (taxa_ncbi_taxid example_store)) ''A3'' example_rows = 2"
    by code_simp
  have hyps: "has_accession example_store ''A3''" "\<not> fast example_acc_parser"
    by (simp_all add: example_acc_parser_def example_store_def)
  from stored_accession_never_deduplicated [where fs = example_fs and p = "''acc.gz''",
      OF hyps example_acc_file example_acc_paths(1), of Omitted example_rows]
    hyps example_acc_file example_acc_paths(1) example_rows_parse occ
  show ?thesis by simp
qed

text \<open>
  C5: the code at the failing input. The parser is configured with a chunk size of 2
  and \<^const>\<open>accession2taxid\<close> is called without a chunk argument: the batch size in
  effect is the default 500 of the parameter, not the configured 2, and the four
  eligible records of the example file come in one batch of four instead of two
  batches of two. The configured value is used only for a chunk argument that is
  \<^verbatim>\<open>None\<close> or \<^verbatim>\<open>0\<close>.
\<close>

theorem omitted_chunk_ignores_configured_chunk:
  "chunk example_fast_parser = 2
   \<and> effective_chunk example_fast_parser Omitted = 500
   \<and> map length (fst (accession2taxid example_fast_parser example_store example_fs None Omitted)) = [4]
   \<and> effective_chunk example_fast_parser (Passed None) = 2
   \<and> map length (fst (accession2taxid example_fast_parser example_store example_fs None (Passed None)))
       = [2, 2]"
  by code_simp

section \<open>The loops of \<^const>\<open>taxdump\<close>\<close>

lemma split_not_Nil: "split sep s \<noteq> []"
  by (induction s) (auto split: list.splits)

lemma node_dict_record:
  "i \<notin> known \<Longrightarrow>
   node_record known
     [''ncbi_taxid'' \<mapsto> i, ''parent_taxid'' \<mapsto> p, ''tax_name'' \<mapsto> n, ''lineage_level'' \<mapsto> r]"
  by (auto simp: node_record_def new_id_def)

lemma name_dict_record:
  "i \<notin> known \<Longrightarrow> name_record known [''ncbi_taxid'' \<mapsto> i, ''tax_name'' \<mapsto> n]"
  by (auto simp: name_record_def new_id_def)

text \<open>One line either leaves the list as it is or appends one dictionary of the right shape.\<close>

lemma parse_nodes_step:
  assumes "parse_nodes ids (line # f) acc = Inr ns"
  shows "parse_nodes ids f acc = Inr ns
     \<or> (\<exists>d. node_record (dom ids) d \<and> parse_nodes ids f (acc @ [d]) = Inr ns)"
proof (cases "line_id line \<in> dom ids")
  case True
  with assms show ?thesis
    using split_not_Nil [of "CHR ''|''" line]
    by (cases "split CHR ''|'' line") (auto simp: line_id_def getitem_def Let_def)
next
  case False
  then have "node_record (dom ids)
      [''ncbi_taxid'' \<mapsto> line_id line, ''parent_taxid'' \<mapsto> p, ''tax_name'' \<mapsto> n,
       ''lineage_level'' \<mapsto> r]"
    for p n r by (rule node_dict_record)
  with assms False show ?thesis
    using split_not_Nil [of "CHR ''|''" line]
    by (cases "split CHR ''|'' line")
       (auto simp: line_id_def getitem_def Let_def split: sum.splits if_splits)
qed

lemma parse_names_step:
  assumes "parse_names ids (line # f) acc = Inr ms"
  shows "parse_names ids f acc = Inr ms
     \<or> (\<exists>d. name_record (dom ids) d \<and> parse_names ids f (acc @ [d]) = Inr ms)"
proof (cases "line_id line \<in> dom ids \<or> \<not> sublist ''scientific name'' line")
  case True
  with assms show ?thesis
    using split_not_Nil [of "CHR ''|''" line]
    by (cases "split CHR ''|'' line") (auto simp: line_id_def getitem_def Let_def split: if_splits)
next
  case False
  then have "name_record (dom ids) [''ncbi_taxid'' \<mapsto> line_id line, ''tax_name'' \<mapsto> n]"
    for n by (simp add: name_dict_record)
  with assms False show ?thesis
    using split_not_Nil [of "CHR ''|''" line]
    by (cases "split CHR ''|'' line")
       (auto simp: line_id_def getitem_def Let_def split: sum.splits if_splits)
qed

lemma parse_nodes_records:
  "list_all (node_record (dom ids)) acc \<Longrightarrow> parse_nodes ids f acc = Inr ns \<Longrightarrow>
   list_all (node_record (dom ids)) ns"
proof (induction f arbitrary: acc)
  case Nil
  then show ?case by simp
next
  case (Cons line f)
  from parse_nodes_step [OF Cons.prems(2)] show ?case
  proof
    assume "parse_nodes ids f acc = Inr ns"
    with Cons.prems(1) show ?thesis by (rule Cons.IH)
  next
    assume "\<exists>d. node_record (dom ids) d \<and> parse_nodes ids f (acc @ [d]) = Inr ns"
    then obtain d where d: "node_record (dom ids) d" "parse_nodes ids f (acc @ [d]) = Inr ns"
      by blast
    from d(1) Cons.prems(1) have "list_all (node_record (dom ids)) (acc @ [d])" by simp
    then show ?thesis using d(2) by (rule Cons.IH)
  qed
qed

lemma parse_names_records:
  "list_all (name_record (dom ids)) acc \<Longrightarrow> parse_names ids f acc = Inr ms \<Longrightarrow>
   list_all (name_record (dom ids)) ms"
proof (induction f arbitrary: acc)
  case Nil
  then show ?case by simp
next
  case (Cons line f)
  from parse_names_step [OF Cons.prems(2)] show ?case
  proof
    assume "parse_names ids f acc = Inr ms"
    with Cons.prems(1) show ?thesis by (rule Cons.IH)
  next
    assume "\<exists>d. name_record (dom ids) d \<and> parse_names ids f (acc @ [d]) = Inr ms"
    then obtain d where d: "name_record (dom ids) d" "parse_names ids f (acc @ [d]) = Inr ms"
      by blast
    from d(1) Cons.prems(1) have "list_all (name_record (dom ids)) (acc @ [d])" by simp
    then show ?thesis using d(2) by (rule Cons.IH)
  qed
qed

text \<open>A line whose id is known changes nothing, wherever it stands in the file.\<close>

lemma parse_nodes_skip:
  "line_id line \<in> dom ids \<Longrightarrow>
   parse_nodes ids (pre @ line # post) acc = parse_nodes ids (pre @ post) acc"
proof (induction pre arbitrary: acc)
  case Nil
  then show ?case
    using split_not_Nil [of "CHR ''|''" line]
    by (cases "split CHR ''|'' line") (auto simp: line_id_def getitem_def Let_def)
next
  case (Cons l pre)
  then show ?case by (simp add: Let_def split: sum.splits)
qed

lemma parse_names_skip:
  "line_id line \<in> dom ids \<Longrightarrow>
   parse_names ids (pre @ line # post) acc = parse_names ids (pre @ post) acc"
proof (induction pre arbitrary: acc)
  case Nil
  then show ?case
    using split_not_Nil [of "CHR ''|''" line]
    by (cases "split CHR ''|'' line") (auto simp: line_id_def getitem_def Let_def)
next
  case (Cons l pre)
  then show ?case by (simp add: Let_def split: sum.splits)
qed

subsection \<open>The merge\<close>

lemma taxdump_merge:
  assumes "fs pn = Some (RegularFile f)" and "fs pm = Some (RegularFile g)"
    and "nodes_path self na = Some pn" and "names_path self ma = Some pm"
    and "parse_nodes (known_ids st) f [] = Inr nodes_data"
    and "parse_names (known_ids st) g [] = Inr names_data"
  shows "taxdump self st fs na ma = Inr (merge nodes_data names_data)"
  using assms
  by (simp add: taxdump_def nodes_path_def names_path_def check_file_def path_exists_def
        path_isfile_def open_file_def Let_def)

lemma taxdump_InrD:
  assumes "taxdump self st fs na ma = Inr merged"
  shows "\<exists>f g nodes_data names_data.
           parse_nodes (known_ids st) f [] = Inr nodes_data
           \<and> parse_names (known_ids st) g [] = Inr names_data
           \<and> merged = merge nodes_data names_data"
  using assms
  by (auto simp: taxdump_def Let_def split: sum.splits)

lemma merge_length: "length (merge ns ms) = min (length ns) (length ms)"
  by (simp add: merge_def)

lemma merge_nth: "i < length ns \<Longrightarrow> i < length ms \<Longrightarrow> merge ns ms ! i = (ns ! i) ++ (ms ! i)"
  by (simp add: merge_def)

lemma merged_fields:
  assumes "node_record known n" and "name_record known m"
  shows "(n ++ m) ''ncbi_taxid'' = m ''ncbi_taxid''" and "m ''ncbi_taxid'' \<noteq> None"
    and "(n ++ m) ''tax_name'' = m ''tax_name''" and "m ''tax_name'' \<noteq> None"
    and "(n ++ m) ''parent_taxid'' = n ''parent_taxid''" and "n ''parent_taxid'' \<noteq> None"
    and "(n ++ m) ''lineage_level'' = n ''lineage_level''" and "n ''lineage_level'' \<noteq> None"
proof -
  from assms(2) have dm: "dom m = {''ncbi_taxid'', ''tax_name''}" by (simp add: name_record_def)
  from assms(1) have dn: "dom n = {''ncbi_taxid'', ''parent_taxid'', ''tax_name'', ''lineage_level''}"
    by (simp add: node_record_def)
  have "''ncbi_taxid'' \<in> dom m" "''tax_name'' \<in> dom m"
    "''parent_taxid'' \<notin> dom m" "''lineage_level'' \<notin> dom m"
    unfolding dm by simp_all
  moreover have "''parent_taxid'' \<in> dom n" "''lineage_level'' \<in> dom n" unfolding dn by simp_all
  ultimately show "(n ++ m) ''ncbi_taxid'' = m ''ncbi_taxid''" and "m ''ncbi_taxid'' \<noteq> None"
    and "(n ++ m) ''tax_name'' = m ''tax_name''" and "m ''tax_name'' \<noteq> None"
    and "(n ++ m) ''parent_taxid'' = n ''parent_taxid''" and "n ''parent_taxid'' \<noteq> None"
    and "(n ++ m) ''lineage_level'' = n ''lineage_level''" and "n ''lineage_level'' \<noteq> None"
    by (auto simp: map_add_def domIff split: option.splits)
qed

lemma merged_new_id:
  assumes "list_all (name_record known) ms"
  shows "\<forall>d\<in>set (merge ns ms). new_id known d"
proof
  fix d assume "d \<in> set (merge ns ms)"
  then obtain n m where nm: "(n, m) \<in> set (zip ns ms)" "d = n ++ m"
    by (auto simp: merge_def)
  then have "m \<in> set ms" by (auto dest: set_zip_rightD)
  with assms have m: "dom m = {''ncbi_taxid'', ''tax_name''}" "new_id known m"
    by (auto simp: list_all_iff name_record_def)
  then have "''ncbi_taxid'' \<in> dom m" by simp
  then have "(n ++ m) ''ncbi_taxid'' = m ''ncbi_taxid''"
    by (auto simp: map_add_def split: option.splits)
  with m(2) nm(2) show "new_id known d" by (simp add: new_id_def)
qed

subsection \<open>The example files\<close>

lemma example_dump_files:
  "example_fs ''nodes.dmp'' = Some (RegularFile example_nodes_lines)"
  "example_fs ''names.dmp'' = Some (RegularFile example_names_lines)"
  "nodes_path example_dump_parser None = Some ''nodes.dmp''"
  "names_path example_dump_parser None = Some ''names.dmp''"
  by (simp_all add: example_fs_def nodes_path_def names_path_def example_dump_parser_def)

lemma example_parse_nodes:
  "parse_nodes (known_ids example_store) example_nodes_lines [] = Inr example_nodes_data"
  by (simp add: example_nodes_lines_def example_nodes_data_def example_store_def known_ids_def
        getitem_def strip_def rstrip_def Let_def)

lemma example_parse_names:
  "parse_names (known_ids example_store) example_names_lines [] = Inr example_names_data"
  by (simp add: example_names_lines_def example_names_data_def example_store_def known_ids_def
        getitem_def strip_def rstrip_def Let_def sublist_code prefix_code)

section \<open>Properties of \<^const>\<open>taxdump\<close>, and the filter on known ids\<close>

text \<open>
  C1. When both files are read and parsed, \<^const>\<open>taxdump\<close> returns a list that is as long
  as the shorter of the nodes-sequence and the names-sequence, and whose record at
  every index \<open>i\<close> is the record \<open>i\<close> of the nodes-sequence overridden by the record
  \<open>i\<close> of the names-sequence: the taxonomic id and the name are those of the names
  row, the parent id and the rank are those of the nodes row. The ids of the two rows
  are not compared.
\<close>

theorem taxdump_merges_by_position:
  assumes "fs pn = Some (RegularFile f)" and "fs pm = Some (RegularFile g)"
    and "nodes_path self na = Some pn" and "names_path self ma = Some pm"
    and "parse_nodes (known_ids st) f [] = Inr nodes_data"
    and "parse_names (known_ids st) g [] = Inr names_data"
  shows "\<exists>merged. taxdump self st fs na ma = Inr merged
    \<and> length merged = min (length nodes_data) (length names_data)
    \<and> (\<forall>i<length merged.
         merged ! i = (nodes_data ! i) ++ (names_data ! i)
         \<and> (merged ! i) ''ncbi_taxid'' = (names_data ! i) ''ncbi_taxid''
         \<and> (names_data ! i) ''ncbi_taxid'' \<noteq> None
         \<and> (merged ! i) ''tax_name'' = (names_data ! i) ''tax_name''
         \<and> (names_data ! i) ''tax_name'' \<noteq> None
         \<and> (merged ! i) ''parent_taxid'' = (nodes_data ! i) ''parent_taxid''
         \<and> (nodes_data ! i) ''parent_taxid'' \<noteq> None
         \<and> (merged ! i) ''lineage_level'' = (nodes_data ! i) ''lineage_level''
         \<and> (nodes_data ! i) ''lineage_level'' \<noteq> None)"
proof -
  let ?known = "dom (known_ids st)"
  have ns: "list_all (node_record ?known) nodes_data"
    using parse_nodes_records [of "known_ids st" "[]" f nodes_data] assms(5) by simp
  have ms: "list_all (name_record ?known) names_data"
    using parse_names_records [of "known_ids st" "[]" g names_data] assms(6) by simp
  have td: "taxdump self st fs na ma = Inr (merge nodes_data names_data)"
    using assms
    by (simp add: taxdump_def nodes_path_def names_path_def check_file_def path_exists_def
          path_isfile_def open_file_def Let_def)
  have "merge nodes_data names_data ! i = (nodes_data ! i) ++ (names_data ! i)
         \<and> (merge nodes_data names_data ! i) ''ncbi_taxid'' = (names_data ! i) ''ncbi_taxid''
         \<and> (names_data ! i) ''ncbi_taxid'' \<noteq> None
         \<and> (merge nodes_data names_data ! i) ''tax_name'' = (names_data ! i) ''tax_name''
         \<and> (names_data ! i) ''tax_name'' \<noteq> None
         \<and> (merge nodes_data names_data ! i) ''parent_taxid'' = (nodes_data ! i) ''parent_taxid''
         \<and> (nodes_data ! i) ''parent_taxid'' \<noteq> None
         \<and> (merge nodes_data names_data ! i) ''lineage_level'' = (nodes_data ! i) ''lineage_level''
         \<and> (nodes_data ! i) ''lineage_level'' \<noteq> None"
    if "i < length (merge nodes_data names_data)" for i
  proof -
    from that have i: "i < length nodes_data" "i < length names_data"
      by (simp_all add: merge_length)
    with ns ms have "node_record ?known (nodes_data ! i)" "name_record ?known (names_data ! i)"
      by (simp_all add: list_all_length)
    from merged_fields [OF this] merge_nth [OF i] show ?thesis by simp
  qed
  with td merge_length [of nodes_data names_data] show ?thesis by blast
qed

theorem taxdump_merges_by_position_witness:
  "example_fs ''nodes.dmp'' = Some (RegularFile example_nodes_lines)
   \<and> example_fs ''names.dmp'' = Some (RegularFile example_names_lines)
   \<and> nodes_path example_dump_parser None = Some ''nodes.dmp''
   \<and> names_path example_dump_parser None = Some ''names.dmp''
   \<and> parse_nodes (known_ids example_store) example_nodes_lines [] = Inr example_nodes_data
   \<and> parse_names (known_ids example_store) example_names_lines [] = Inr example_names_data
   \<and> (\<exists>merged. taxdump example_dump_parser example_store example_fs None None = Inr merged
        \<and> map fields_of merged = [[Some ''9605'', Some ''9604'', Some ''Homo'', Some ''genus'']])"
proof -
  from taxdump_merges_by_position [where fs = example_fs and pn = "''nodes.dmp''"
      and pm = "''names.dmp''", OF example_dump_files example_parse_nodes example_parse_names]
  obtain merged where m: "taxdump example_dump_parser example_store example_fs None None = Inr merged"
    "length merged = min (length example_nodes_data) (length example_names_data)"
    "\<forall>i<length merged. merged ! i = (example_nodes_data ! i) ++ (example_names_data ! i)"
    by blast
  from m(2) have len: "length merged = 1"
    by (simp add: example_nodes_data_def example_names_data_def)
  then obtain d where d: "merged = [d]" by (cases merged) auto
  with m(3) have "d = (example_nodes_data ! 0) ++ (example_names_data ! 0)" by simp
  then have "fields_of d = [Some ''9605'', Some ''9604'', Some ''Homo'', Some ''genus'']"
    by (simp add: fields_of_def example_nodes_data_def example_names_data_def map_add_def)
  with m(1) d example_dump_files example_parse_nodes example_parse_names
  show ?thesis by simp
qed

text \<open>
  C3. Every record that \<^const>\<open>accession2taxid\<close> yields has a taxonomic id of the
  KnownIdSet. In \<^const>\<open>taxdump\<close>, a line of either file whose id is in the KnownIdSet
  is skipped (the result is that of the file without the line), so every record of
  the nodes-sequence and of the names-sequence, and every merged record, has an id
  outside the KnownIdSet.
\<close>

theorem known_id_filter:
  "(\<forall>b\<in>set (fst (accession2taxid ap st fs arg ca)).
      \<forall>d\<in>set b. references_known (set (taxa_ncbi_taxid st)) d)
   \<and> (line_id line \<in> set (taxa_ncbi_taxid st) \<longrightarrow>
        parse_nodes (known_ids st) (pre @ line # post) acc
          = parse_nodes (known_ids st) (pre @ post) acc
        \<and> parse_names (known_ids st) (pre @ line # post) acc
          = parse_names (known_ids st) (pre @ post) acc)
   \<and> (parse_nodes (known_ids st) f [] = Inr nodes_data \<longrightarrow>
        (\<forall>d\<in>set nodes_data. new_id (set (taxa_ncbi_taxid st)) d))
   \<and> (parse_names (known_ids st) g [] = Inr names_data \<longrightarrow>
        (\<forall>d\<in>set names_data. new_id (set (taxa_ncbi_taxid st)) d))
   \<and> (taxdump dp st fs na ma = Inr merged \<longrightarrow>
        (\<forall>d\<in>set merged. new_id (set (taxa_ncbi_taxid st)) d))"
proof (intro conjI impI)
  show "\<forall>b\<in>set (fst (accession2taxid ap st fs arg ca)).
      \<forall>d\<in>set b. references_known (set (taxa_ncbi_taxid st)) d"
    using accession2taxid_cases [of ap st fs arg ca]
      run_lines_references_known [of "fast ap" st "known_ids st" "effective_chunk ap ca"
        "input_rows fs (acc_path ap arg)"]
    by (auto simp: dom_known_ids)
next
  assume "line_id line \<in> set (taxa_ncbi_taxid st)"
  then have "line_id line \<in> dom (known_ids st)" by (simp add: dom_known_ids)
  then show "parse_nodes (known_ids st) (pre @ line # post) acc
          = parse_nodes (known_ids st) (pre @ post) acc"
    and "parse_names (known_ids st) (pre @ line # post) acc
          = parse_names (known_ids st) (pre @ post) acc"
    by (rule parse_nodes_skip, rule parse_names_skip)
next
  assume "parse_nodes (known_ids st) f [] = Inr nodes_data"
  with parse_nodes_records [of "known_ids st" "[]" f nodes_data]
  show "\<forall>d\<in>set nodes_data. new_id (set (taxa_ncbi_taxid st)) d"
    by (simp add: list_all_iff node_record_def dom_known_ids)
next
  assume "parse_names (known_ids st) g [] = Inr names_data"
  with parse_names_records [of "known_ids st" "[]" g names_data]
  show "\<forall>d\<in>set names_data. new_id (set (taxa_ncbi_taxid st)) d"
    by (simp add: list_all_iff name_record_def dom_known_ids)
next
  assume "taxdump dp st fs na ma = Inr merged"
  from taxdump_InrD [OF this] obtain f' g' ns ms where
    p: "parse_names (known_ids st) g' [] = Inr ms" "merged = merge ns ms"
    by blast
  from parse_names_records [of "known_ids st" "[]" g' ms] p(1)
  have "list_all (name_record (dom (known_ids st))) ms" by simp
  from merged_new_id [OF this, of ns] p(2)
  show "\<forall>d\<in>set merged. new_id (set (taxa_ncbi_taxid st)) d"
    by (simp add: dom_known_ids)
qed

theorem known_id_filter_witness:
  "list_all (list_all (references_known (set (taxa_ncbi_taxid example_store))))
     (fst (accession2taxid example_acc_parser example_store example_fs None Omitted))
   \<and> line_id ''9606|9605|species'' \<in> set (taxa_ncbi_taxid example_store)
   \<and> parse_nodes (known_ids example_store) ([] @ ''9606|9605|species'' # drop 1 example_nodes_lines) []
       = parse_nodes (known_ids example_store) ([] @ drop 1 example_nodes_lines) []
   \<and> parse_nodes (known_ids example_store) example_nodes_lines [] = Inr example_nodes_data
   \<and> list_all (new_id (set (taxa_ncbi_taxid example_store))) example_nodes_data
   \<and> parse_names (known_ids example_store) example_names_lines [] = Inr example_names_data
   \<and> list_all (new_id (set (taxa_ncbi_taxid example_store))) example_names_data
   \<and> taxdump example_dump_parser example_store example_fs None None
       = Inr (merge example_nodes_data example_names_data)
   \<and> list_all (new_id (set (taxa_ncbi_taxid example_store)))
       (merge example_nodes_data example_names_data)"
proof -
  have id: "line_id ''9606|9605|species'' \<in> set (taxa_ncbi_taxid example_store)"
    by code_simp
  have td: "taxdump example_dump_parser example_store example_fs None None
       = Inr (merge example_nodes_data example_names_data)"
    by (rule taxdump_merge [where fs = example_fs and pn = "''nodes.dmp''" and pm = "''names.dmp''",
          OF example_dump_files example_parse_nodes example_parse_names])
  from known_id_filter [of example_acc_parser example_store example_fs None Omitted
      "''9606|9605|species''" "[]" "drop 1 example_nodes_lines" "[]"
      example_nodes_lines example_nodes_data example_names_lines example_names_data
      example_dump_parser None None "merge example_nodes_data example_names_data"]
    id td example_parse_nodes example_parse_names
  show ?thesis by (simp add: list_all_iff)
qed

end
